theory Spec2Isabelle
  imports Complex_Main "HOL-Library.Char_ord" "HOL-Library.List_Lexorder" "HOL-Library.Signed_Division"
begin

section \<open>Data model\<close>

text \<open>
  Go's \<^verbatim>\<open>int\<close> is modelled as \<^typ>\<open>int\<close>; every quantity of the recommender
  (replica counts, percentages) stays far from the 64-bit bounds. \<^verbatim>\<open>time.Time\<close> and
  \<^verbatim>\<open>time.Duration\<close> are integers counting nanoseconds, the zero \<^verbatim>\<open>time.Time\<close> being 0.
  \<^verbatim>\<open>float64\<close> is modelled by the exact rationals: rounding, infinities and NaN are outside
  the model, so a data point value, a per-pod limit or a red line utilisation is a
  \<^typ>\<open>rat\<close>, and division by a zero float is outside the model.
\<close>

record DataPoint =
  Timestamp :: int
  Value :: rat

record TimerEvent =
  TimerTimestamp :: int
  Delta :: rat

record HPAConfiguration =
  HPAMin :: int
  HPAMax :: int
  TargetMetricValue :: int

record Policy =
  Name :: string
  RiskIndex :: string
  MinReplicaPercentageCut :: int
  TargetUtilization :: int

datatype error =
    UnableToRecommend
  | InvalidTargetUtilization
  | UnsupportedObjectKind
  | UnableToFetchScaledObjects
  | NilPolicyOrConfig
  | NoRecommenderConfigured
  | NilPolicyRecommendation
  | RuntimePanic
  | NotFound
  | Failure string

text \<open>
  The custom resources of \<^verbatim>\<open>api/v1alpha1\<close> and KEDA's \<^verbatim>\<open>ScaledObject\<close>, with the fields the
  recommender reads.
\<close>

record PolicySpec =
  SpecRiskIndex :: string
  SpecMinReplicaPercentageCut :: int
  SpecTargetUtilization :: int

record PolicyCR =
  ObjectName :: string
  Spec :: PolicySpec


record ScaledObject =
  MaxReplicaCount :: "int option"

text \<open>
  A collaborator is modelled by what it answers: \<open>Inl\<close> an error, \<open>Inr\<close> a value. A run-time
  panic of the Go code is the result \<open>Inl RuntimePanic\<close>.
\<close>

record PolicyStore =
  GetDefaultPolicy :: "error + PolicyCR"
  GetSafestPolicy :: "error + PolicyCR"
  GetPolicyByName :: "string \<Rightarrow> error + PolicyCR"
  GetNextPolicyByName :: "string \<Rightarrow> error + PolicyCR"
  GetSortedPolicies :: "error + PolicyCR list"

record Collaborators =
  GetAverageCPUUtilizationByWorkload :: "error + DataPoint list"
  GetACLByWorkload :: "error + int"
  GetObjectClient :: "error + unit"
  GetMaxReplicaFromAnnotation :: "error + int"
  GetReplicaCount :: "error + int"
  GetContainerResourceLimits :: "error + rat"
  ListScaledObjects :: "error + ScaledObject list"
  metricsTransformer :: "(DataPoint list \<Rightarrow> error + DataPoint list) list"

record CpuUtilizationBasedRecommender =
  redLineUtil :: rat
  metricWindow :: int
  metricStep :: int
  minTarget :: int
  maxTarget :: int
  metricsPercentageThreshold :: int

section \<open>The HPA simulator (reco.go)\<close>

text \<open>
  \<^verbatim>\<open>int(math.Floor(float64(targetUtilization) * 1.1))\<close>. The double nearest to 1.1 lies
  just above 11/10, so for a non-negative target the floor of the product is the integer
  quotient below; for a negative target both values are below 1, which is all the
  simulator looks at.
\<close>

definition inflatedTarget :: "int \<Rightarrow> int" where
  "inflatedTarget targetUtilization = (targetUtilization * 11) div 10"

text \<open>\<^verbatim>\<open>math.Ceil((100*dp.Value)/float64(targetUtilization)/perPodResources)\<close>\<close>

definition demandReplicas :: "rat \<Rightarrow> int \<Rightarrow> rat \<Rightarrow> int" where
  "demandReplicas v targetUtilization perPodResources =
     \<lceil>(100 * v) / of_int targetUtilization / perPodResources\<rceil>"

text \<open>The inner loop that consumes the timers of all upscale events that are due.\<close>

fun consumeTimers :: "int \<Rightarrow> rat \<Rightarrow> TimerEvent list \<Rightarrow> rat \<times> TimerEvent list" where
  "consumeTimers now ready [] = (ready, [])"
| "consumeTimers now ready (e # es) =
     (if \<not> now < TimerTimestamp e then consumeTimers now (ready + Delta e) es
      else (ready, e # es))"

text \<open>The body of the loop over \<^verbatim>\<open>dataPoints[1:]\<close>: the new ready resources and timer list.\<close>

definition scaleStep ::
  "int \<Rightarrow> int \<Rightarrow> rat \<Rightarrow> int \<Rightarrow> int \<Rightarrow> DataPoint \<Rightarrow> rat \<Rightarrow> TimerEvent list
     \<Rightarrow> rat \<times> TimerEvent list" where
  "scaleStep acl targetUtilization perPodResources maxReplicas minReplicas dp ready timers =
     (case consumeTimers (Timestamp dp) ready timers of (ready1, timers1) \<Rightarrow>
        let newReplicas = min maxReplicas (max minReplicas
              (demandReplicas (Value dp) targetUtilization perPodResources));
            newResources = of_int newReplicas * perPodResources
        in if newResources > ready1 then
             (let delta = foldl (\<lambda>d timer. d - Delta timer) (newResources - ready1) timers1
              in if delta > 0
                 then (ready1, timers1 @ [\<lparr>TimerTimestamp = Timestamp dp + acl, Delta = delta\<rparr>])
                 else (ready1, timers1))
           else (newResources, []))"

fun simulateLoop ::
  "rat \<Rightarrow> int \<Rightarrow> int \<Rightarrow> rat \<Rightarrow> int \<Rightarrow> int \<Rightarrow> rat \<Rightarrow> TimerEvent list \<Rightarrow> int
     \<Rightarrow> DataPoint list \<Rightarrow> DataPoint list \<times> int" where
  "simulateLoop rlu acl tu ppr maxReplicas minReplicas ready timers calculatedMin [] =
     ([], calculatedMin)"
| "simulateLoop rlu acl tu ppr maxReplicas minReplicas ready timers calculatedMin (dp # dps) =
     (case scaleStep acl tu ppr maxReplicas minReplicas dp ready timers of (ready', timers') \<Rightarrow>
        case simulateLoop rlu acl tu ppr maxReplicas minReplicas ready' timers'
               (min calculatedMin (demandReplicas (Value dp) tu ppr)) dps of
          (simulated, calculatedMin') \<Rightarrow>
            (\<lparr>Timestamp = Timestamp dp, Value = ready' * rlu\<rparr> # simulated, calculatedMin'))"

definition simulateHPA ::
  "CpuUtilizationBasedRecommender \<Rightarrow> DataPoint list \<Rightarrow> int \<Rightarrow> int \<Rightarrow> rat \<Rightarrow> int \<Rightarrow> int
     \<Rightarrow> error + (DataPoint list \<times> int)" where
  "simulateHPA c dataPoints acl targetUtilization perPodResources maxReplicas minReplicas =
     (let tu = inflatedTarget targetUtilization in
      case dataPoints of
        [] \<Rightarrow> Inr ([], 0)
      | d0 # rest \<Rightarrow>
          if tu < 1 \<or> tu > 100 then Inl InvalidTargetUtilization
          else
            let currentReplicas = min maxReplicas (max minReplicas
                  (demandReplicas (Value d0) tu perPodResources));
                currentResources = of_int currentReplicas * perPodResources
            in case simulateLoop (redLineUtil c) acl tu perPodResources maxReplicas minReplicas
                      currentResources [] (demandReplicas (Value d0) tu perPodResources) rest of
                 (simulated, calculatedMin) \<Rightarrow>
                   Inr (\<lparr>Timestamp = Timestamp d0, Value = currentResources * redLineUtil c\<rparr>
                          # simulated, calculatedMin))"

text \<open>
  \<^verbatim>\<open>hasNoBreachOccurred\<close> walks the original series and reads the simulated one at the same
  index. The simulator returns a series as long as its input, so the read is always in
  range; a simulated series that is too short is reported as a breach here.
\<close>

fun hasNoBreachOccurred :: "DataPoint list \<Rightarrow> DataPoint list \<Rightarrow> bool" where
  "hasNoBreachOccurred [] simulated = True"
| "hasNoBreachOccurred (original # originals) [] = False"
| "hasNoBreachOccurred (original # originals) (sim # sims) =
     (if Value original > Value sim then False else hasNoBreachOccurred originals sims)"

definition calculateSavings ::
  "CpuUtilizationBasedRecommender \<Rightarrow> int \<Rightarrow> DataPoint list \<Rightarrow> rat \<Rightarrow> rat" where
  "calculateSavings c maxReplicas simulated perPodResources =
     (let savings = foldl (\<lambda>savings dp.
                 savings + ((of_int maxReplicas * perPodResources) - Value dp / redLineUtil c))
               0 simulated;
          savings = savings / (of_int maxReplicas * perPodResources);
          savings = savings / of_nat (length simulated)
      in savings * 100)"

section \<open>The search for the optimal configuration (reco.go)\<close>

text \<open>
  The inner \<^verbatim>\<open>for low <= high\<close> loop. It carries the series and the calculated minimum of
  the last simulation it ran, as the variables \<^verbatim>\<open>simulatedHPAList\<close> and
  \<^verbatim>\<open>calculatedMin\<close> of the source do, and returns them with the final \<^verbatim>\<open>high\<close>.
  Inside the loop \<^verbatim>\<open>high - low\<close> is not negative, so Go's truncating division by 2 is
  \<open>div\<close>.
\<close>

function searchTarget ::
  "CpuUtilizationBasedRecommender \<Rightarrow> DataPoint list \<Rightarrow> int \<Rightarrow> rat \<Rightarrow> int \<Rightarrow> int
     \<Rightarrow> int \<Rightarrow> int \<Rightarrow> DataPoint list \<Rightarrow> int \<Rightarrow> error + (int \<times> DataPoint list \<times> int)" where
  "searchTarget c dataPoints acl perPodResources maxReplicas minReplicas low high
       simulatedHPAList calculatedMin =
     (if low \<le> high then
        (let mid = low + (high - low) div 2 in
         case simulateHPA c dataPoints acl mid perPodResources maxReplicas minReplicas of
           Inl err \<Rightarrow> Inl err
         | Inr (simulated, calculated) \<Rightarrow>
             if hasNoBreachOccurred dataPoints simulated
             then searchTarget c dataPoints acl perPodResources maxReplicas minReplicas
                    (mid + 1) high simulated calculated
             else searchTarget c dataPoints acl perPodResources maxReplicas minReplicas
                    low (mid - 1) simulated calculated)
      else Inr (high, simulatedHPAList, calculatedMin))"
  by pat_completeness auto
termination
  by (relation "measure (\<lambda>(c, dataPoints, acl, perPodResources, maxReplicas, minReplicas,
        low, high, simulatedHPAList, calculatedMin). nat (high - low + 1))") auto

text \<open>
  The outer loop over \<^verbatim>\<open>minReplicas\<close>, with the running
  \<^verbatim>\<open>(optimalTargetThreshold, optimalMin, savings)\<close> as its state.
\<close>

function searchFloors ::
  "CpuUtilizationBasedRecommender \<Rightarrow> DataPoint list \<Rightarrow> int \<Rightarrow> int \<Rightarrow> int \<Rightarrow> rat \<Rightarrow> int
     \<Rightarrow> int \<Rightarrow> int \<times> int \<times> rat \<Rightarrow> error + (int \<times> int \<times> rat)" where
  "searchFloors c dataPoints acl minT maxT perPodResources maxReplicas minReplicas best =
     (if minReplicas \<le> maxReplicas then
        (case searchTarget c dataPoints acl perPodResources maxReplicas minReplicas
                minT maxT [] 0 of
           Inl err \<Rightarrow> Inl err
         | Inr (high, simulatedHPAList, calculatedMin) \<Rightarrow>
             searchFloors c dataPoints acl minT maxT perPodResources maxReplicas
               (minReplicas + 1)
               (if high \<ge> minT \<and> calculatedMin \<le> minReplicas
                   \<and> length simulatedHPAList > 0
                   \<and> calculateSavings c maxReplicas simulatedHPAList perPodResources
                        \<ge> snd (snd best)
                then (high, minReplicas,
                      calculateSavings c maxReplicas simulatedHPAList perPodResources)
                else best))
      else Inr best)"
  by pat_completeness auto
termination
  by (relation "measure (\<lambda>(c, dataPoints, acl, minT, maxT, perPodResources,
        maxReplicas, minReplicas, best). nat (maxReplicas + 1 - minReplicas))") auto

declare searchTarget.simps [simp del] searchFloors.simps [simp del]

definition findOptimalHPAConfigurations ::
  "CpuUtilizationBasedRecommender \<Rightarrow> DataPoint list \<Rightarrow> int \<Rightarrow> int \<Rightarrow> int \<Rightarrow> rat \<Rightarrow> int
     \<Rightarrow> error + (int \<times> int \<times> int)" where
  "findOptimalHPAConfigurations c dataPoints acl minT maxT perPodResources maxReplicas =
     (case searchFloors c dataPoints acl minT maxT perPodResources maxReplicas 1
             (0, 0, 0) of
        Inl err \<Rightarrow> Inl err
      | Inr (optimalTargetThreshold, optimalMin, savings) \<Rightarrow>
          if optimalTargetThreshold < minT \<or> savings = 0 then Inl UnableToRecommend
          else Inr (optimalTargetThreshold, optimalMin, maxReplicas))"

section \<open>The recommender (reco.go)\<close>

text \<open>\<^verbatim>\<open>int(d.Seconds())\<close> of a duration, and \<^verbatim>\<open>int(x)\<close> of a float: both truncate towards zero.\<close>

definition durationSeconds :: "int \<Rightarrow> int" where
  "durationSeconds d = d sdiv 1000000000"

definition truncateToInt :: "rat \<Rightarrow> int" where
  "truncateToInt x = (if x \<ge> 0 then \<lfloor>x\<rfloor> else \<lceil>x\<rceil>)"

text \<open>
  The integer division by a step of zero seconds panics. A window shorter than the step
  makes \<^verbatim>\<open>totalDataPoints\<close> zero and the percentage an infinity or NaN, which the model
  does not cover.
\<close>

definition isMetricsAboveThreshold ::
  "CpuUtilizationBasedRecommender \<Rightarrow> DataPoint list \<Rightarrow> error + bool" where
  "isMetricsAboveThreshold c dataPoints =
     (if durationSeconds (metricStep c) = 0 then Inl RuntimePanic
      else
        let totalDataPoints = durationSeconds (metricWindow c) sdiv durationSeconds (metricStep c);
            percentageOfDataPointsFetched =
              (of_nat (length dataPoints) / of_int totalDataPoints) * 100
        in if truncateToInt percentageOfDataPointsFetched < metricsPercentageThreshold c
           then Inr False else Inr True)"

definition getContainerCPULimitsSum :: "Collaborators \<Rightarrow> error + rat" where
  "getContainerCPULimitsSum env =
     (case GetObjectClient env of
        Inl err \<Rightarrow> Inl UnsupportedObjectKind
      | Inr deploymentClient \<Rightarrow>
          (case GetContainerResourceLimits env of
             Inl err \<Rightarrow> Inl err
           | Inr cpuLimitsSum \<Rightarrow> Inr cpuLimitsSum))"

definition getMaxPods :: "Collaborators \<Rightarrow> error + int" where
  "getMaxPods env =
     (case GetObjectClient env of
        Inl err \<Rightarrow> Inl UnsupportedObjectKind
      | Inr deploymentClient \<Rightarrow>
          (case GetMaxReplicaFromAnnotation env of
             Inr maxPods \<Rightarrow> Inr maxPods
           | Inl err \<Rightarrow>
               (case (case ListScaledObjects env of
                        Inl err \<Rightarrow> if err \<noteq> NotFound then Inl UnableToFetchScaledObjects
                                   else Inr []
                      | Inr items \<Rightarrow> Inr items) of
                  Inl err \<Rightarrow> Inl err
                | Inr items \<Rightarrow>
                    (case items of
                       so # rest \<Rightarrow>
                         (case MaxReplicaCount so of
                            Some n \<Rightarrow> Inr n
                          | None \<Rightarrow> GetReplicaCount env)
                     | [] \<Rightarrow> GetReplicaCount env))))"

fun applyTransformers ::
  "(DataPoint list \<Rightarrow> error + DataPoint list) list \<Rightarrow> DataPoint list \<Rightarrow> error + DataPoint list"
  where
  "applyTransformers [] dataPoints = Inr dataPoints"
| "applyTransformers (transformer # transformers) dataPoints =
     (case transformer dataPoints of
        Inl err \<Rightarrow> Inl err
      | Inr dataPoints' \<Rightarrow> applyTransformers transformers dataPoints')"

text \<open>The configuration that both no-operation paths of \<^verbatim>\<open>Recommend\<close> return.\<close>

definition noOpConfiguration :: "CpuUtilizationBasedRecommender \<Rightarrow> int \<Rightarrow> HPAConfiguration" where
  "noOpConfiguration c workloadMaxReplicas =
     \<lparr>HPAMin = workloadMaxReplicas, HPAMax = workloadMaxReplicas, TargetMetricValue = minTarget c\<rparr>"

definition Recommend ::
  "CpuUtilizationBasedRecommender \<Rightarrow> Collaborators \<Rightarrow> error + HPAConfiguration" where
  "Recommend c env =
     (case GetAverageCPUUtilizationByWorkload env of
        Inl err \<Rightarrow> Inl err
      | Inr dataPoints \<Rightarrow>
     (case getMaxPods env of
        Inl err \<Rightarrow> Inl err
      | Inr workloadMaxReplicas \<Rightarrow>
     (case isMetricsAboveThreshold c dataPoints of
        Inl err \<Rightarrow> Inl err
      | Inr False \<Rightarrow> Inr (noOpConfiguration c workloadMaxReplicas)
      | Inr True \<Rightarrow>
     (case applyTransformers (metricsTransformer env) dataPoints of
        Inl err \<Rightarrow> Inl err
      | Inr dataPoints \<Rightarrow>
     (case GetACLByWorkload env of
        Inl err \<Rightarrow> Inl err
      | Inr acl \<Rightarrow>
     (case getContainerCPULimitsSum env of
        Inl err \<Rightarrow> Inl err
      | Inr perPodResources \<Rightarrow>
     (case findOptimalHPAConfigurations c dataPoints acl (minTarget c) (maxTarget c)
             perPodResources workloadMaxReplicas of
        Inl err \<Rightarrow>
          if err = UnableToRecommend then Inr (noOpConfiguration c workloadMaxReplicas)
          else Inl err
      | Inr (optimalTargetUtil, minReplicas, maxReplicas) \<Rightarrow>
          Inr \<lparr>HPAMin = minReplicas, HPAMax = maxReplicas,
               TargetMetricValue = optimalTargetUtil\<rparr>)))))))"

section \<open>The policy iterators (policyiterators.go)\<close>

definition PolicyFromCR :: "PolicyCR \<Rightarrow> Policy" where
  "PolicyFromCR policy =
     \<lparr>Name = ObjectName policy,
      RiskIndex = SpecRiskIndex (Spec policy),
      MinReplicaPercentageCut = SpecMinReplicaPercentageCut (Spec policy),
      TargetUtilization = SpecTargetUtilization (Spec policy)\<rparr>"





section \<open>The recommendation workflow (workflow.go)\<close>

text \<open>
  \<^verbatim>\<open>policy.MinReplicaPercentageCut*(recoConfig.Max-recoConfig.Min)/100\<close> is a division of
  Go integers, which truncates; its result is converted to a float and handed to
  \<^verbatim>\<open>math.Ceil\<close>.
\<close>

definition createRecoConfigFromPolicy ::
  "Policy option \<Rightarrow> HPAConfiguration option \<Rightarrow> error + HPAConfiguration" where
  "createRecoConfigFromPolicy policy recoConfig =
     (case (policy, recoConfig) of
        (Some p, Some rc) \<Rightarrow>
          Inr \<lparr>HPAMin = HPAMax rc -
                 \<lceil>(of_int ((MinReplicaPercentageCut p * (HPAMax rc - HPAMin rc)) sdiv 100) :: rat)\<rceil>,
               HPAMax = HPAMax rc,
               TargetMetricValue = TargetUtilization p\<rparr>
      | _ \<Rightarrow> Inl NilPolicyOrConfig)"

definition shouldApplyReco :: "HPAConfiguration option \<Rightarrow> Policy option \<Rightarrow> bool" where
  "shouldApplyReco config policy =
     (case policy of
        None \<Rightarrow> True
      | Some p \<Rightarrow>
          (case config of
             None \<Rightarrow> False
           | Some cfg \<Rightarrow>
               if MinReplicaPercentageCut p = 100 \<and> TargetMetricValue cfg < TargetUtilization p
               then True else False))"

text \<open>Go compares the \<^verbatim>\<open>RiskIndex\<close> strings byte by byte, which is the order on \<^typ>\<open>string\<close>.\<close>

definition pickSafestPolicy :: "Policy option \<Rightarrow> Policy option \<Rightarrow> Policy option" where
  "pickSafestPolicy p1 p2 =
     (case (p1, p2) of
        (None, Some b) \<Rightarrow> p2
      | (Some a, None) \<Rightarrow> p1
      | (None, None) \<Rightarrow> None
      | (Some a, Some b) \<Rightarrow> if RiskIndex a \<le> RiskIndex b then p1 else p2)"

definition transformTargetRecoConfig :: "HPAConfiguration option \<Rightarrow> int \<Rightarrow> HPAConfiguration option"
  where
  "transformTargetRecoConfig targetRecoConfig minRequired =
     (case targetRecoConfig of
        None \<Rightarrow> None
      | Some cfg \<Rightarrow>
          let maxReplicas = HPAMax cfg;
              minReplicas = HPAMin cfg;
              minReplicas = (if maxReplicas \<ge> minRequired \<and> minReplicas < minRequired
                             then minRequired else minReplicas)
          in Some \<lparr>HPAMin = minReplicas, HPAMax = maxReplicas,
                   TargetMetricValue = TargetMetricValue cfg\<rparr>)"

definition emptyPolicyCR :: PolicyCR where
  "emptyPolicyCR = \<lparr>ObjectName = [],
     Spec = \<lparr>SpecRiskIndex = [], SpecMinReplicaPercentageCut = 0, SpecTargetUtilization = 0\<rparr>\<rparr>"

text \<open>
  The loop of \<^verbatim>\<open>findClosestSafePolicy\<close>. \<^verbatim>\<open>config.TargetMetricValue\<close> is read only after
  \<^verbatim>\<open>MinReplicaPercentageCut == 100\<close> held, and reading it from a nil \<^verbatim>\<open>config\<close> panics.
\<close>

fun closestSafeLoop :: "HPAConfiguration option \<Rightarrow> PolicyCR \<Rightarrow> PolicyCR list \<Rightarrow> error + PolicyCR" where
  "closestSafeLoop config closestSafePolicy [] = Inr closestSafePolicy"
| "closestSafeLoop config closestSafePolicy (pc # pcs) =
     (if SpecMinReplicaPercentageCut (Spec pc) = 100 then
        (case config of
           None \<Rightarrow> Inl RuntimePanic
         | Some cfg \<Rightarrow>
             closestSafeLoop config
               (if SpecTargetUtilization (Spec pc) \<le> TargetMetricValue cfg then pc
                else closestSafePolicy) pcs)
      else closestSafeLoop config closestSafePolicy pcs)"

definition findClosestSafePolicy :: "HPAConfiguration option \<Rightarrow> PolicyCR list \<Rightarrow> error + Policy" where
  "findClosestSafePolicy config policies =
     (case closestSafeLoop config emptyPolicyCR policies of
        Inl err \<Rightarrow> Inl err
      | Inr closestSafePolicy \<Rightarrow> Inr (PolicyFromCR closestSafePolicy))"

definition generateNextRecoConfig ::
  "PolicyStore \<Rightarrow> HPAConfiguration option \<Rightarrow> Policy option
     \<Rightarrow> error + (HPAConfiguration option \<times> Policy option)" where
  "generateNextRecoConfig store config policy =
     (if shouldApplyReco config policy then
        (case GetSortedPolicies store of
           Inl err \<Rightarrow> Inr (config, None)
         | Inr policies \<Rightarrow>
             (case findClosestSafePolicy config policies of
                Inl panic \<Rightarrow> Inl panic
              | Inr closest \<Rightarrow> Inr (config, Some closest)))
      else
        (case createRecoConfigFromPolicy policy config of
           Inl err \<Rightarrow> Inr (None, policy)
         | Inr recoConfig \<Rightarrow> Inr (Some recoConfig, policy)))"


fun runPolicyIterators ::
  "Policy option \<Rightarrow> (string \<times> (error + Policy option)) list \<Rightarrow> error + Policy option" where
  "runPolicyIterators nextPolicy [] = Inr nextPolicy"
| "runPolicyIterators nextPolicy ((i, answer) # rest) =
     (case answer of
        Inl err \<Rightarrow> Inl err
      | Inr None \<Rightarrow> runPolicyIterators nextPolicy rest
      | Inr (Some p) \<Rightarrow> runPolicyIterators (pickSafestPolicy nextPolicy (Some p)) rest)"


section \<open>Auxiliary notions for the statements\<close>

text \<open>
  The policies taking part in a merge: the running \<^verbatim>\<open>nextPolicy\<close> and every non-nil
  policy an iterator answered.
\<close>

definition candidates :: "Policy option \<Rightarrow> (string \<times> (error + Policy option)) list \<Rightarrow> Policy set" where
  "candidates acc xs = {p. acc = Some p \<or> (\<exists>i. (i, Inr (Some p)) \<in> set xs)}"

text \<open>
  The candidate the outer loop of \<^verbatim>\<open>findOptimalHPAConfigurations\<close> has for one value of
  \<^verbatim>\<open>minReplicas\<close>: the final \<^verbatim>\<open>high\<close> of the inner loop and \<^verbatim>\<open>newSavings\<close>, when the two
  enclosing conditions \<^verbatim>\<open>high >= minTarget && calculatedMin <= minReplicas\<close> and
  \<^verbatim>\<open>len(simulatedHPAList) > 0\<close> hold.
\<close>

definition floorCandidate ::
  "CpuUtilizationBasedRecommender \<Rightarrow> DataPoint list \<Rightarrow> int \<Rightarrow> int \<Rightarrow> int \<Rightarrow> rat \<Rightarrow> int
     \<Rightarrow> int \<Rightarrow> (int \<times> rat) option" where
  "floorCandidate c dataPoints acl minT maxT perPodResources maxReplicas minReplicas =
     (case searchTarget c dataPoints acl perPodResources maxReplicas minReplicas
             minT maxT [] 0 of
        Inl err \<Rightarrow> None
      | Inr (high, simulatedHPAList, calculatedMin) \<Rightarrow>
          if high \<ge> minT \<and> calculatedMin \<le> minReplicas \<and> length simulatedHPAList > 0
          then Some (high, calculateSavings c maxReplicas simulatedHPAList perPodResources)
          else None)"

text \<open>
  The invariant of the outer loop before it handles \<^verbatim>\<open>minReplicas = k\<close>: the running
  savings bound the savings of every candidate seen, and the running best is either the
  initial one or the last candidate seen with these savings.
\<close>

definition bestSoFar ::
  "(int \<Rightarrow> (int \<times> rat) option) \<Rightarrow> int \<Rightarrow> int \<Rightarrow> int \<times> int \<times> rat \<Rightarrow> bool" where
  "bestSoFar cand maxReplicas k best =
     (case best of (ot, om, sv) \<Rightarrow>
        0 \<le> sv
        \<and> (\<forall>m t s. 1 \<le> m \<and> m < k \<and> cand m = Some (t, s) \<longrightarrow> s \<le> sv)
        \<and> ((ot, om, sv) = (0, 0, 0)
            \<or> (1 \<le> om \<and> om < k \<and> om \<le> maxReplicas \<and> cand om = Some (ot, sv)
                \<and> (\<forall>m t. 1 \<le> m \<and> m < k \<and> cand m = Some (t, sv) \<longrightarrow> m \<le> om))))"



section \<open>The simulator: order of the checks\<close>

lemma inflatedTarget_floor: "inflatedTarget t = \<lfloor>(of_int t :: rat) * 11 / 10\<rfloor>"
proof -
  have "\<lfloor>(of_int (t * 11) :: rat) / of_int 10\<rfloor> = (t * 11) div 10"
    by (rule floor_divide_of_int_eq)
  then show ?thesis by (simp add: inflatedTarget_def)
qed

text \<open>
  Claim C10. \<^verbatim>\<open>simulateHPA\<close> looks at the length of the series before it validates the
  inflated target \<open>\<lfloor>target * 1.1\<rfloor>\<close>: an empty series gives an empty supply series, an
  observed minimum of 0 and no error whatever the target is, and a non-empty series gives
  an error, the invalid-target error, exactly when the inflated target is outside 1..100.
\<close>

theorem simulateHPA_checks_empty_series_first:
  "simulateHPA c [] acl t ppr mx mn = Inr ([], 0)
   \<and> (simulateHPA c (d # ds) acl t ppr mx mn = Inl InvalidTargetUtilization)
       = (\<lfloor>(of_int t :: rat) * 11 / 10\<rfloor> < 1 \<or> \<lfloor>(of_int t :: rat) * 11 / 10\<rfloor> > 100)
   \<and> (\<exists>e. simulateHPA c (d # ds) acl t ppr mx mn = Inl e)
       = (\<lfloor>(of_int t :: rat) * 11 / 10\<rfloor> < 1 \<or> \<lfloor>(of_int t :: rat) * 11 / 10\<rfloor> > 100)"
  unfolding inflatedTarget_floor [symmetric]
  by (auto simp: simulateHPA_def Let_def split: prod.splits)

theorem simulateHPA_checks_empty_series_first_witness:
  "simulateHPA \<lparr>redLineUtil = 4/5, metricWindow = 0, metricStep = 0, minTarget = 10,
       maxTarget = 60, metricsPercentageThreshold = 50\<rparr> [] 0 200 1 10 1 = Inr ([], 0)
   \<and> simulateHPA \<lparr>redLineUtil = 4/5, metricWindow = 0, metricStep = 0, minTarget = 10,
       maxTarget = 60, metricsPercentageThreshold = 50\<rparr>
       [\<lparr>Timestamp = 0, Value = 1\<rparr>] 0 200 1 10 1 = Inl InvalidTargetUtilization"
  using simulateHPA_checks_empty_series_first
    [of "\<lparr>redLineUtil = 4/5, metricWindow = 0, metricStep = 0, minTarget = 10,
       maxTarget = 60, metricsPercentageThreshold = 50\<rparr>" 0 200 1 10 1
       "\<lparr>Timestamp = 0, Value = 1\<rparr>" "[]"]
  by simp

section \<open>The simulator: length of the supply series\<close>

lemma simulateLoop_length:
  "length (fst (simulateLoop rlu acl tu ppr mx mn ready timers calculatedMin dps)) = length dps"
proof (induction dps arbitrary: ready timers calculatedMin)
  case Nil
  show ?case by simp
next
  case (Cons dp dps)
  obtain r q where step: "scaleStep acl tu ppr mx mn dp ready timers = (r, q)" by fastforce
  obtain out cm where
    rest: "simulateLoop rlu acl tu ppr mx mn r q
             (min calculatedMin (demandReplicas (Value dp) tu ppr)) dps = (out, cm)"
    by fastforce
  from Cons.IH [of r q "min calculatedMin (demandReplicas (Value dp) tu ppr)"] rest
  have "length out = length dps" by simp
  with step rest show ?case by simp
qed

lemma simulateHPA_length:
  assumes "simulateHPA c dataPoints acl t ppr mx mn = Inr (simulated, calculatedMin)"
  shows "length simulated = length dataPoints"
proof (cases dataPoints)
  case Nil
  with assms show ?thesis by (simp add: simulateHPA_def)
next
  case (Cons d0 rest)
  let ?tu = "inflatedTarget t"
  let ?ready = "(of_int (min mx (max mn (demandReplicas (Value d0) ?tu ppr))) * ppr :: rat)"
  from assms Cons have
    "simulated = \<lparr>Timestamp = Timestamp d0, Value = ?ready * redLineUtil c\<rparr>
       # fst (simulateLoop (redLineUtil c) acl ?tu ppr mx mn ?ready []
                (demandReplicas (Value d0) ?tu ppr) rest)"
    by (auto simp: simulateHPA_def Let_def split: if_splits prod.splits)
  then have "length simulated = Suc (length rest)"
    by (simp add: simulateLoop_length)
  with Cons show ?thesis by simp
qed

section \<open>The simulator: supply against the target\<close>


lemma foldl_subtract_deltas:
  "foldl (\<lambda>d timer. d - Delta timer) x q = x - sum_list (map Delta q)"
  by (induction q arbitrary: x) (auto simp: algebra_simps)









section \<open>The search: bisection and the best candidate\<close>

lemma searchTarget_boundary:
  "searchTarget c dps acl ppr mx mn low high sim0 cm0 = Inr (t, sim, cm) \<Longrightarrow> low \<le> high + 1 \<Longrightarrow>
     low - 1 \<le> t \<and> t \<le> high
     \<and> (low \<le> t \<longrightarrow> (\<exists>s m. simulateHPA c dps acl t ppr mx mn = Inr (s, m)
                          \<and> hasNoBreachOccurred dps s))
     \<and> (t < high \<longrightarrow> (\<exists>s m. simulateHPA c dps acl (t + 1) ppr mx mn = Inr (s, m)
                          \<and> \<not> hasNoBreachOccurred dps s))"
proof (induction c dps acl ppr mx mn low high sim0 cm0 rule: searchTarget.induct)
  case (1 c dps acl ppr mx mn low high sim0 cm0)
  show ?case
  proof (cases "low \<le> high")
    case False
    with "1.prems" show ?thesis by (simp add: searchTarget.simps)
  next
    case True
    define mid where "mid = low + (high - low) div 2"
    have mid: "low \<le> mid" "mid \<le> high" using True by (auto simp: mid_def)
    from "1.prems"(1) True obtain s m where
      sm: "simulateHPA c dps acl mid ppr mx mn = Inr (s, m)"
      by (subst (asm) searchTarget.simps) (auto simp: mid_def Let_def split: sum.splits)
    show ?thesis
    proof (cases "hasNoBreachOccurred dps s")
      case nb: True
      from "1.prems"(1) True sm nb have
        rec: "searchTarget c dps acl ppr mx mn (mid + 1) high s m = Inr (t, sim, cm)"
        by (subst (asm) searchTarget.simps) (simp add: mid_def Let_def)
      have "mid + 1 \<le> high + 1" using mid by simp
      from "1.IH"(1) [OF True mid_def sm [symmetric, THEN sym] refl nb rec this]
      have ih: "mid \<le> t" "t \<le> high"
        "mid + 1 \<le> t \<longrightarrow> (\<exists>s m. simulateHPA c dps acl t ppr mx mn = Inr (s, m)
                          \<and> hasNoBreachOccurred dps s)"
        "t < high \<longrightarrow> (\<exists>s m. simulateHPA c dps acl (t + 1) ppr mx mn = Inr (s, m)
                          \<and> \<not> hasNoBreachOccurred dps s)"
        by auto
      have "\<exists>s m. simulateHPA c dps acl t ppr mx mn = Inr (s, m) \<and> hasNoBreachOccurred dps s"
      proof (cases "t = mid")
        case True
        with sm nb show ?thesis by auto
      next
        case False
        with ih(1) have "mid + 1 \<le> t" by simp
        with ih(3) show ?thesis by blast
      qed
      with ih mid show ?thesis by auto
    next
      case br: False
      from "1.prems"(1) True sm br have
        rec: "searchTarget c dps acl ppr mx mn low (mid - 1) s m = Inr (t, sim, cm)"
        by (subst (asm) searchTarget.simps) (simp add: mid_def Let_def)
      have "low \<le> mid - 1 + 1" using mid by simp
      from "1.IH"(2) [OF True mid_def sm [symmetric, THEN sym] refl br rec this]
      have ih: "low - 1 \<le> t" "t \<le> mid - 1"
        "low \<le> t \<longrightarrow> (\<exists>s m. simulateHPA c dps acl t ppr mx mn = Inr (s, m)
                          \<and> hasNoBreachOccurred dps s)"
        "t < mid - 1 \<longrightarrow> (\<exists>s m. simulateHPA c dps acl (t + 1) ppr mx mn = Inr (s, m)
                          \<and> \<not> hasNoBreachOccurred dps s)"
        by auto
      have "\<exists>s m. simulateHPA c dps acl (t + 1) ppr mx mn = Inr (s, m)
               \<and> \<not> hasNoBreachOccurred dps s"
      proof (cases "t = mid - 1")
        case True
        with sm br show ?thesis by auto
      next
        case False
        with ih(2) have "t < mid - 1" by simp
        with ih(4) show ?thesis by blast
      qed
      with ih mid show ?thesis by auto
    qed
  qed
qed


lemma bestSoFar_step:
  assumes inv: "bestSoFar cand mx k best" and k: "1 \<le> k" "k \<le> mx"
  shows "bestSoFar cand mx (k + 1)
           (case cand k of
              Some (t, s) \<Rightarrow> if s \<ge> snd (snd best) then (t, k, s) else best
            | None \<Rightarrow> best)"
proof -
  obtain ot om sv where best: "best = (ot, om, sv)" by (cases best)
  from inv best have sv0: "0 \<le> sv"
    and le: "\<And>m t s. 1 \<le> m \<Longrightarrow> m < k \<Longrightarrow> cand m = Some (t, s) \<Longrightarrow> s \<le> sv"
    and rec: "(ot, om, sv) = (0, 0, 0)
            \<or> (1 \<le> om \<and> om < k \<and> om \<le> mx \<and> cand om = Some (ot, sv)
                \<and> (\<forall>m t. 1 \<le> m \<and> m < k \<and> cand m = Some (t, sv) \<longrightarrow> m \<le> om))"
    by (auto simp: bestSoFar_def)
  have split: "\<And>m. m < k + 1 \<longleftrightarrow> m < k \<or> m = k" by auto
  show ?thesis
  proof (cases "cand k")
    case None
    have "bestSoFar cand mx (k + 1) (ot, om, sv)"
      unfolding bestSoFar_def split using sv0 le rec None by auto
    with None best show ?thesis by simp
  next
    case (Some ts)
    obtain t s where ts: "ts = (t, s)" by (cases ts)
    show ?thesis
    proof (cases "s \<ge> sv")
      case True
      have "bestSoFar cand mx (k + 1) (t, k, s)"
        unfolding bestSoFar_def split using sv0 le True Some ts k
        by (auto intro: order_trans)
      with Some ts best True show ?thesis by simp
    next
      case False
      have "bestSoFar cand mx (k + 1) (ot, om, sv)"
        unfolding bestSoFar_def split using sv0 le rec Some ts False by auto
      with Some ts best False show ?thesis by simp
    qed
  qed
qed

lemma searchFloors_unfold:
  "searchFloors c dps acl minT maxT ppr mx k best =
     (if k \<le> mx then
        (case searchTarget c dps acl ppr mx k minT maxT [] 0 of
           Inl err \<Rightarrow> Inl err
         | Inr r \<Rightarrow>
             searchFloors c dps acl minT maxT ppr mx (k + 1)
               (case floorCandidate c dps acl minT maxT ppr mx k of
                  Some (t, s) \<Rightarrow> if s \<ge> snd (snd best) then (t, k, s) else best
                | None \<Rightarrow> best))
      else Inr best)"
  by (subst searchFloors.simps) (auto simp: floorCandidate_def split: sum.splits prod.splits)

lemma searchFloors_bestSoFar:
  "searchFloors c dps acl minT maxT ppr mx k best = Inr final \<Longrightarrow> 1 \<le> k \<Longrightarrow>
   bestSoFar (floorCandidate c dps acl minT maxT ppr mx) mx k best \<Longrightarrow>
   bestSoFar (floorCandidate c dps acl minT maxT ppr mx) mx (max k (mx + 1)) final"
proof (induction c dps acl minT maxT ppr mx k best rule: searchFloors.induct)
  case (1 c dps acl minT maxT ppr mx k best)
  show ?case
  proof (cases "k \<le> mx")
    case False
    then have "max k (mx + 1) = k" by simp
    moreover from "1.prems"(1) False have "final = best" by (simp add: searchFloors_unfold)
    ultimately show ?thesis using "1.prems"(3) by simp
  next
    case True
    from "1.prems"(1) True obtain high sim cm where
      st: "searchTarget c dps acl ppr mx k minT maxT [] 0 = Inr (high, sim, cm)"
      by (subst (asm) searchFloors_unfold) (auto split: sum.splits)
    let ?cand = "floorCandidate c dps acl minT maxT ppr mx"
    let ?best = "case ?cand k of
                  Some (t, s) \<Rightarrow> if s \<ge> snd (snd best) then (t, k, s) else best
                | None \<Rightarrow> best"
    have eq: "?best = (if high \<ge> minT \<and> cm \<le> k \<and> length sim > 0
                   \<and> calculateSavings c mx sim ppr \<ge> snd (snd best)
                then (high, k, calculateSavings c mx sim ppr) else best)"
      using st by (simp add: floorCandidate_def)
    from "1.prems"(1) True st have rec:
      "searchFloors c dps acl minT maxT ppr mx (k + 1) ?best = Inr final"
      by (subst (asm) searchFloors_unfold) simp
    have step: "bestSoFar ?cand mx (k + 1) ?best"
      using bestSoFar_step [OF "1.prems"(3) "1.prems"(2) True] .
    have "1 \<le> k + 1" using "1.prems"(2) by simp
    from "1.IH" [OF True st refl refl rec [unfolded eq] this step [unfolded eq]]
    have "bestSoFar ?cand mx (max (k + 1) (mx + 1)) final" .
    moreover have "max (k + 1) (mx + 1) = max k (mx + 1)" using True by simp
    ultimately show ?thesis by simp
  qed
qed




lemma floorCandidate_Some:
  assumes "floorCandidate c dps acl minT maxT ppr mx m = Some (t, s)"
  shows "\<exists>sim cm. searchTarget c dps acl ppr mx m minT maxT [] 0 = Inr (t, sim, cm)
            \<and> minT \<le> t \<and> t \<le> maxT \<and> cm \<le> m \<and> sim \<noteq> []
            \<and> s = calculateSavings c mx sim ppr"
proof -
  from assms obtain sim cm where
    st: "searchTarget c dps acl ppr mx m minT maxT [] 0 = Inr (t, sim, cm)"
    and c: "minT \<le> t" "cm \<le> m" "sim \<noteq> []" "s = calculateSavings c mx sim ppr"
    by (auto simp: floorCandidate_def split: sum.splits if_splits)
  have "t \<le> maxT"
  proof (cases "minT \<le> maxT + 1")
    case True
    from searchTarget_boundary [OF st True] show ?thesis by simp
  next
    case False
    then have "\<not> minT \<le> maxT" by simp
    with st have "t = maxT" by (simp add: searchTarget.simps)
    then show ?thesis by simp
  qed
  with st c show ?thesis by blast
qed

lemma bestSoFar_initial: "bestSoFar cand mx 1 (0, 0, 0)"
  by (simp add: bestSoFar_def)

lemma findOptimal_success:
  assumes ok: "findOptimalHPAConfigurations c dps acl minT maxT ppr mx = Inr (t, m, mx')"
  shows "mx' = mx \<and> 1 \<le> m \<and> m \<le> mx
     \<and> (\<exists>s. floorCandidate c dps acl minT maxT ppr mx m = Some (t, s) \<and> 0 < s
          \<and> (\<forall>m' t' s'. 1 \<le> m' \<and> m' \<le> mx
                \<and> floorCandidate c dps acl minT maxT ppr mx m' = Some (t', s')
                \<longrightarrow> s' \<le> s \<and> (s' = s \<longrightarrow> m' \<le> m)))"
proof -
  let ?cand = "floorCandidate c dps acl minT maxT ppr mx"
  from ok obtain sv where
    sf: "searchFloors c dps acl minT maxT ppr mx 1 (0, 0, 0) = Inr (t, m, sv)"
    and fin: "\<not> (t < minT \<or> sv = 0)" and mx: "mx' = mx"
    by (auto simp: findOptimalHPAConfigurations_def split: sum.splits if_splits)
  from searchFloors_bestSoFar [OF sf _ bestSoFar_initial]
  have inv: "bestSoFar ?cand mx (max 1 (mx + 1)) (t, m, sv)" by simp
  from inv have sv0: "0 \<le> sv" by (simp add: bestSoFar_def)
  have inv_le: "\<forall>m' t' s'. 1 \<le> m' \<and> m' < max 1 (mx + 1) \<and> ?cand m' = Some (t', s')
      \<longrightarrow> s' \<le> sv"
    using inv unfolding bestSoFar_def by (simp only: prod.case; blast)
  have le: "s' \<le> sv" if "1 \<le> m'" "m' \<le> mx" "?cand m' = Some (t', s')" for m' t' s'
  proof -
    from that have "m' < max 1 (mx + 1)" by simp
    with inv_le that show ?thesis by blast
  qed
  have inv_rec: "(t, m, sv) = (0, 0, 0)
            \<or> (1 \<le> m \<and> m < max 1 (mx + 1) \<and> m \<le> mx \<and> ?cand m = Some (t, sv)
                \<and> (\<forall>m' t'. 1 \<le> m' \<and> m' < max 1 (mx + 1) \<and> ?cand m' = Some (t', sv)
                      \<longrightarrow> m' \<le> m))"
    using inv unfolding bestSoFar_def by (simp only: prod.case; blast)
  with fin have rec: "1 \<le> m" "m \<le> mx" "?cand m = Some (t, sv)"
    and inv_ties: "\<forall>m' t'. 1 \<le> m' \<and> m' < max 1 (mx + 1) \<and> ?cand m' = Some (t', sv)
                      \<longrightarrow> m' \<le> m"
    by auto
  have ties: "m' \<le> m" if "1 \<le> m'" "m' \<le> mx" "?cand m' = Some (t', sv)" for m' t'
  proof -
    from that have "m' < max 1 (mx + 1)" by simp
    with inv_ties that show ?thesis by blast
  qed
  have "\<forall>m' t' s'. 1 \<le> m' \<and> m' \<le> mx \<and> ?cand m' = Some (t', s')
                \<longrightarrow> s' \<le> sv \<and> (s' = sv \<longrightarrow> m' \<le> m)"
  proof (intro allI impI)
    fix m' t' s'
    assume a: "1 \<le> m' \<and> m' \<le> mx \<and> ?cand m' = Some (t', s')"
    from a le have "s' \<le> sv" by blast
    moreover have "s' = sv \<longrightarrow> m' \<le> m" using a ties by blast
    ultimately show "s' \<le> sv \<and> (s' = sv \<longrightarrow> m' \<le> m)" by simp
  qed
  moreover from sv0 fin have "0 < sv" by simp
  ultimately show ?thesis using mx rec by blast
qed





text \<open>
  The series and the observed minimum that the bisection ends with are those of the last
  simulation it ran. When that simulation had a breach, it ran at target \<open>t + 1\<close>: here,
  for the floor 2, the bisection ends at target 22 with the series and observed minimum
  of target 23 (savings 50), while the simulation at target 22 observes a minimum of 3.
\<close>

lemma searchTarget_keeps_last_simulation:
  "searchTarget \<lparr>redLineUtil = 1, metricWindow = 240000000000, metricStep = 60000000000,
       minTarget = 10, maxTarget = 30, metricsPercentageThreshold = 50\<rparr>
     [\<lparr>Timestamp = 0, Value = 1/2\<rparr>, \<lparr>Timestamp = 60000000000, Value = 1/2\<rparr>,
      \<lparr>Timestamp = 120000000000, Value = 1/2\<rparr>, \<lparr>Timestamp = 180000000000, Value = 3\<rparr>]
     120000000000 1 4 2 10 30 [] 0
   = Inr (22, [\<lparr>Timestamp = 0, Value = 2\<rparr>, \<lparr>Timestamp = 60000000000, Value = 2\<rparr>,
               \<lparr>Timestamp = 120000000000, Value = 2\<rparr>,
               \<lparr>Timestamp = 180000000000, Value = 2\<rparr>], 2)
   \<and> simulateHPA \<lparr>redLineUtil = 1, metricWindow = 240000000000, metricStep = 60000000000,
       minTarget = 10, maxTarget = 30, metricsPercentageThreshold = 50\<rparr>
     [\<lparr>Timestamp = 0, Value = 1/2\<rparr>, \<lparr>Timestamp = 60000000000, Value = 1/2\<rparr>,
      \<lparr>Timestamp = 120000000000, Value = 1/2\<rparr>, \<lparr>Timestamp = 180000000000, Value = 3\<rparr>]
     120000000000 22 1 4 2
   = Inr ([\<lparr>Timestamp = 0, Value = 3\<rparr>, \<lparr>Timestamp = 60000000000, Value = 3\<rparr>,
           \<lparr>Timestamp = 120000000000, Value = 3\<rparr>,
           \<lparr>Timestamp = 180000000000, Value = 3\<rparr>], 3)
   \<and> findOptimalHPAConfigurations \<lparr>redLineUtil = 1, metricWindow = 240000000000,
       metricStep = 60000000000, minTarget = 10, maxTarget = 30,
       metricsPercentageThreshold = 50\<rparr>
     [\<lparr>Timestamp = 0, Value = 1/2\<rparr>, \<lparr>Timestamp = 60000000000, Value = 1/2\<rparr>,
      \<lparr>Timestamp = 120000000000, Value = 1/2\<rparr>, \<lparr>Timestamp = 180000000000, Value = 3\<rparr>]
     120000000000 10 30 1 4
   = Inr (22, 2, 4)"
  by code_simp

section \<open>The recommender: the no-operation paths\<close>






section \<open>The recommender: bounds of the configuration\<close>

lemma transformTargetRecoConfig_bounds:
  "transformTargetRecoConfig (Some cfg) r = Some cfg' \<Longrightarrow> 1 \<le> HPAMin cfg \<Longrightarrow> HPAMin cfg \<le> HPAMax cfg
     \<Longrightarrow> 1 \<le> HPAMin cfg' \<and> HPAMin cfg' \<le> HPAMax cfg' \<and> HPAMax cfg' = HPAMax cfg
         \<and> TargetMetricValue cfg' = TargetMetricValue cfg"
  by (auto simp: transformTargetRecoConfig_def Let_def split: if_splits)

text \<open>
  Claim C7, as stated, fails: when the workload has no annotation and no ScaledObject and
  currently runs zero replicas, the no-operation path returns \<open>min = max = 0\<close>.
\<close>

theorem Recommend_zero_replicas:
  "Recommend
     \<lparr>redLineUtil = 4/5, metricWindow = 3600000000000, metricStep = 60000000000,
      minTarget = 10, maxTarget = 60, metricsPercentageThreshold = 50\<rparr>
     \<lparr>GetAverageCPUUtilizationByWorkload = Inr [], GetACLByWorkload = Inr 0,
      GetObjectClient = Inr (), GetMaxReplicaFromAnnotation = Inl NotFound,
      GetReplicaCount = Inr 0,
      GetContainerResourceLimits = Inr 1, ListScaledObjects = Inr [],
      metricsTransformer = []\<rparr>
     = Inr \<lparr>HPAMin = 0, HPAMax = 0, TargetMetricValue = 10\<rparr>
   \<and> \<not> 1 \<le> HPAMin \<lparr>HPAMin = 0, HPAMax = 0, TargetMetricValue = 10\<rparr>"
  by code_simp

text \<open>
  Claim C7, amended. When \<^verbatim>\<open>getMaxPods\<close> returns a maximum \<open>W \<ge> 1\<close> and
  \<open>minTarget \<le> maxTarget\<close>, every configuration produced by \<^verbatim>\<open>Recommend\<close> satisfies
  \<open>1 \<le> min \<le> max = W\<close> and \<open>minTarget \<le> targetMetricValue \<le> maxTarget\<close>, and the post-filter
  \<^verbatim>\<open>transformTargetRecoConfig\<close> of the workflow keeps \<open>1 \<le> min \<le> max = W\<close> and the target.
\<close>

theorem Recommend_configuration_bounds:
  assumes reco: "Recommend c env = Inr cfg"
    and maxPods: "getMaxPods env = Inr W"
    and W: "1 \<le> W"
    and targets: "minTarget c \<le> maxTarget c"
  shows "1 \<le> HPAMin cfg \<and> HPAMin cfg \<le> HPAMax cfg \<and> HPAMax cfg = W
     \<and> minTarget c \<le> TargetMetricValue cfg \<and> TargetMetricValue cfg \<le> maxTarget c
     \<and> (\<exists>cfg'. transformTargetRecoConfig (Some cfg) minRequired = Some cfg'
           \<and> 1 \<le> HPAMin cfg' \<and> HPAMin cfg' \<le> HPAMax cfg' \<and> HPAMax cfg' = W
           \<and> TargetMetricValue cfg' = TargetMetricValue cfg)"
proof -
  have main: "1 \<le> HPAMin cfg \<and> HPAMin cfg \<le> HPAMax cfg \<and> HPAMax cfg = W
     \<and> minTarget c \<le> TargetMetricValue cfg \<and> TargetMetricValue cfg \<le> maxTarget c"
  proof -
  have noop_ok: "1 \<le> HPAMin (noOpConfiguration c W)
     \<and> HPAMin (noOpConfiguration c W) \<le> HPAMax (noOpConfiguration c W)
     \<and> HPAMax (noOpConfiguration c W) = W
     \<and> minTarget c \<le> TargetMetricValue (noOpConfiguration c W)
     \<and> TargetMetricValue (noOpConfiguration c W) \<le> maxTarget c"
    using W targets by (simp add: noOpConfiguration_def)
  from reco maxPods consider
    (noop) "cfg = noOpConfiguration c W"
  | (found) series acl ppr t m mx where
      "findOptimalHPAConfigurations c series acl (minTarget c) (maxTarget c) ppr W = Inr (t, m, mx)"
      "cfg = \<lparr>HPAMin = m, HPAMax = mx, TargetMetricValue = t\<rparr>"
    by (auto simp: Recommend_def split: sum.splits bool.splits if_splits)
  then show ?thesis
  proof cases
    case noop
    with noop_ok show ?thesis by simp
  next
    case found
    from findOptimal_success [OF found(1)] obtain s where
      m: "mx = W" "1 \<le> m" "m \<le> W"
      and cand: "floorCandidate c series acl (minTarget c) (maxTarget c) ppr W m = Some (t, s)"
      by blast
    from floorCandidate_Some [OF cand] have "minTarget c \<le> t" "t \<le> maxTarget c" by auto
    with m found(2) show ?thesis by simp
  qed
  qed
  obtain cfg' where tr: "transformTargetRecoConfig (Some cfg) minRequired = Some cfg'"
    by (simp add: transformTargetRecoConfig_def Let_def)
  from transformTargetRecoConfig_bounds [OF tr] main
  have "1 \<le> HPAMin cfg' \<and> HPAMin cfg' \<le> HPAMax cfg' \<and> HPAMax cfg' = W
           \<and> TargetMetricValue cfg' = TargetMetricValue cfg"
    by simp
  with tr main show ?thesis by blast
qed

theorem Recommend_configuration_bounds_witness:
  "Recommend
     \<lparr>redLineUtil = 4/5, metricWindow = 120000000000, metricStep = 60000000000,
      minTarget = 10, maxTarget = 12, metricsPercentageThreshold = 50\<rparr>
     \<lparr>GetAverageCPUUtilizationByWorkload =
        Inr [\<lparr>Timestamp = 0, Value = 1/5\<rparr>, \<lparr>Timestamp = 60000000000, Value = 1/5\<rparr>],
      GetACLByWorkload = Inr 0,
      GetObjectClient = Inr (), GetMaxReplicaFromAnnotation = Inr 3,
      GetReplicaCount = Inr 2,
      GetContainerResourceLimits = Inr 1, ListScaledObjects = Inr [],
      metricsTransformer = []\<rparr>
     = Inr \<lparr>HPAMin = 2, HPAMax = 3, TargetMetricValue = 12\<rparr>
   \<and> 1 \<le> HPAMin \<lparr>HPAMin = 2, HPAMax = 3, TargetMetricValue = 12\<rparr>
   \<and> HPAMin \<lparr>HPAMin = 2, HPAMax = 3, TargetMetricValue = 12\<rparr>
       \<le> HPAMax \<lparr>HPAMin = 2, HPAMax = 3, TargetMetricValue = 12\<rparr>"
proof -
  let ?c = "\<lparr>redLineUtil = 4/5, metricWindow = 120000000000, metricStep = 60000000000,
      minTarget = 10, maxTarget = 12, metricsPercentageThreshold = 50\<rparr>"
  let ?env = "\<lparr>GetAverageCPUUtilizationByWorkload =
        Inr [\<lparr>Timestamp = 0, Value = 1/5\<rparr>, \<lparr>Timestamp = 60000000000, Value = 1/5\<rparr>],
      GetACLByWorkload = Inr 0,
      GetObjectClient = Inr (), GetMaxReplicaFromAnnotation = Inr 3,
      GetReplicaCount = Inr 2,
      GetContainerResourceLimits = Inr 1, ListScaledObjects = Inr [],
      metricsTransformer = []\<rparr>"
  let ?cfg = "\<lparr>HPAMin = 2, HPAMax = 3, TargetMetricValue = 12\<rparr>"
  have reco: "Recommend ?c ?env = Inr ?cfg" by code_simp
  have maxPods: "getMaxPods ?env = Inr 3" by (simp add: getMaxPods_def)
  from Recommend_configuration_bounds [OF reco maxPods, of 3] reco
  show ?thesis by simp
qed

section \<open>The workflow: deriving a configuration from a policy\<close>

text \<open>
  Claim C2. The claim takes the ceiling of the exact quotient, so a cut of 50 percent of
  \<open>max - min = 5\<close> would remove \<open>\<lceil>5/2\<rceil> = 3\<close> replicas and leave a minimum of 7. The code
  divides the integers first, so \<^verbatim>\<open>math.Ceil\<close> receives 2 and the minimum is 8.
\<close>

theorem createRecoConfigFromPolicy_truncates_before_ceil:
  "createRecoConfigFromPolicy
     (Some \<lparr>Name = ''p'', RiskIndex = ''20'', MinReplicaPercentageCut = 50, TargetUtilization = 30\<rparr>)
     (Some \<lparr>HPAMin = 5, HPAMax = 10, TargetMetricValue = 40\<rparr>)
   = Inr \<lparr>HPAMin = 8, HPAMax = 10, TargetMetricValue = 30\<rparr>
   \<and> 10 - \<lceil>(50 * (10 - 5) / 100 :: rat)\<rceil> = 7"
proof -
  have "\<lceil>(5 / 2 :: rat)\<rceil> = 3" by (simp add: ceiling_eq_iff)
  then show ?thesis by (simp add: createRecoConfigFromPolicy_def)
qed

text \<open>
  Claim C5. \<^verbatim>\<open>shouldApplyReco\<close> holds exactly when the policy is nil, or the configuration is
  not nil, the policy cuts 100 percent and the target of the configuration is below the
  target of the policy. In particular a policy with a cut below 100 always wins, and
  whenever the policy wins the workflow returns the policy together with the
  configuration that \<^verbatim>\<open>createRecoConfigFromPolicy\<close> derives from it (none when the
  recommended configuration is nil).
\<close>

theorem shouldApplyReco_iff:
  "shouldApplyReco config policy =
     (policy = None \<or> (\<exists>cfg p. config = Some cfg \<and> policy = Some p
        \<and> MinReplicaPercentageCut p = 100 \<and> TargetMetricValue cfg < TargetUtilization p))
   \<and> (MinReplicaPercentageCut q < 100 \<longrightarrow> \<not> shouldApplyReco config (Some q))
   \<and> (\<not> shouldApplyReco config (Some q) \<longrightarrow>
        generateNextRecoConfig store config (Some q) =
          Inr (case createRecoConfigFromPolicy (Some q) config of
                 Inl err \<Rightarrow> None | Inr recoConfig \<Rightarrow> Some recoConfig, Some q))
   \<and> createRecoConfigFromPolicy (Some q) (Some c) =
        Inr \<lparr>HPAMin = HPAMax c - (MinReplicaPercentageCut q * (HPAMax c - HPAMin c)) sdiv 100,
             HPAMax = HPAMax c, TargetMetricValue = TargetUtilization q\<rparr>"
  by (auto simp: shouldApplyReco_def generateNextRecoConfig_def createRecoConfigFromPolicy_def
      split: option.splits sum.splits)

theorem shouldApplyReco_iff_witness:
  "\<not> shouldApplyReco (Some \<lparr>HPAMin = 5, HPAMax = 10, TargetMetricValue = 40\<rparr>)
       (Some \<lparr>Name = ''p'', RiskIndex = ''20'', MinReplicaPercentageCut = 50,
              TargetUtilization = 30\<rparr>)
   \<and> generateNextRecoConfig
        \<lparr>GetDefaultPolicy = Inl NotFound, GetSafestPolicy = Inl NotFound,
         GetPolicyByName = (\<lambda>n. Inl NotFound), GetNextPolicyByName = (\<lambda>n. Inl NotFound),
         GetSortedPolicies = Inr []\<rparr>
        (Some \<lparr>HPAMin = 5, HPAMax = 10, TargetMetricValue = 40\<rparr>)
        (Some \<lparr>Name = ''p'', RiskIndex = ''20'', MinReplicaPercentageCut = 50,
               TargetUtilization = 30\<rparr>)
      = Inr (Some \<lparr>HPAMin = 8, HPAMax = 10, TargetMetricValue = 30\<rparr>,
             Some \<lparr>Name = ''p'', RiskIndex = ''20'', MinReplicaPercentageCut = 50,
                    TargetUtilization = 30\<rparr>)"
  using shouldApplyReco_iff
    [of "Some \<lparr>HPAMin = 5, HPAMax = 10, TargetMetricValue = 40\<rparr>"
        "Some \<lparr>Name = ''p'', RiskIndex = ''20'', MinReplicaPercentageCut = 50,
               TargetUtilization = 30\<rparr>"
        "\<lparr>Name = ''p'', RiskIndex = ''20'', MinReplicaPercentageCut = 50,
          TargetUtilization = 30\<rparr>"
        "\<lparr>GetDefaultPolicy = Inl NotFound, GetSafestPolicy = Inl NotFound,
         GetPolicyByName = (\<lambda>n. Inl NotFound), GetNextPolicyByName = (\<lambda>n. Inl NotFound),
         GetSortedPolicies = Inr []\<rparr>"
        "\<lparr>HPAMin = 5, HPAMax = 10, TargetMetricValue = 40\<rparr>"]
  by simp

section \<open>The workflow: the closest safe policy\<close>

lemma closestSafeLoop_last:
  "closestSafeLoop (Some cfg) acc ps =
     Inr (case filter (\<lambda>pc. SpecMinReplicaPercentageCut (Spec pc) = 100
                 \<and> SpecTargetUtilization (Spec pc) \<le> TargetMetricValue cfg) ps of
            [] \<Rightarrow> acc | p # qs \<Rightarrow> last (p # qs))"
  by (induction ps arbitrary: acc) (auto split: list.splits)

text \<open>
  Claim C8. For a configuration, \<^verbatim>\<open>findClosestSafePolicy\<close> returns the last policy of the
  list, in list order, that cuts 100 percent and whose target utilisation is at most the
  target of the configuration; when no policy of the list matches it returns the empty
  policy.
\<close>

theorem findClosestSafePolicy_last_match:
  "findClosestSafePolicy (Some cfg) policies =
     Inr (PolicyFromCR
       (case filter (\<lambda>pc. SpecMinReplicaPercentageCut (Spec pc) = 100
                 \<and> SpecTargetUtilization (Spec pc) \<le> TargetMetricValue cfg) policies of
            [] \<Rightarrow> emptyPolicyCR | p # qs \<Rightarrow> last (p # qs)))
   \<and> PolicyFromCR emptyPolicyCR
       = \<lparr>Name = [], RiskIndex = [], MinReplicaPercentageCut = 0, TargetUtilization = 0\<rparr>"
proof
  show "findClosestSafePolicy (Some cfg) policies =
     Inr (PolicyFromCR
       (case filter (\<lambda>pc. SpecMinReplicaPercentageCut (Spec pc) = 100
                 \<and> SpecTargetUtilization (Spec pc) \<le> TargetMetricValue cfg) policies of
            [] \<Rightarrow> emptyPolicyCR | p # qs \<Rightarrow> last (p # qs)))"
    by (simp add: findClosestSafePolicy_def closestSafeLoop_last)
  show "PolicyFromCR emptyPolicyCR
       = \<lparr>Name = [], RiskIndex = [], MinReplicaPercentageCut = 0, TargetUtilization = 0\<rparr>"
    by (simp add: PolicyFromCR_def emptyPolicyCR_def)
qed

theorem findClosestSafePolicy_last_match_witness:
  "findClosestSafePolicy (Some \<lparr>HPAMin = 1, HPAMax = 10, TargetMetricValue = 25\<rparr>)
     [\<lparr>ObjectName = ''p10'', Spec = \<lparr>SpecRiskIndex = ''1'', SpecMinReplicaPercentageCut = 100,
          SpecTargetUtilization = 10\<rparr>\<rparr>,
      \<lparr>ObjectName = ''p20'', Spec = \<lparr>SpecRiskIndex = ''2'', SpecMinReplicaPercentageCut = 100,
          SpecTargetUtilization = 20\<rparr>\<rparr>,
      \<lparr>ObjectName = ''p30'', Spec = \<lparr>SpecRiskIndex = ''3'', SpecMinReplicaPercentageCut = 100,
          SpecTargetUtilization = 30\<rparr>\<rparr>,
      \<lparr>ObjectName = ''q15'', Spec = \<lparr>SpecRiskIndex = ''4'', SpecMinReplicaPercentageCut = 80,
          SpecTargetUtilization = 15\<rparr>\<rparr>]
   = Inr \<lparr>Name = ''p20'', RiskIndex = ''2'', MinReplicaPercentageCut = 100,
          TargetUtilization = 20\<rparr>
   \<and> findClosestSafePolicy (Some \<lparr>HPAMin = 1, HPAMax = 10, TargetMetricValue = 5\<rparr>)
     [\<lparr>ObjectName = ''p10'', Spec = \<lparr>SpecRiskIndex = ''1'', SpecMinReplicaPercentageCut = 100,
          SpecTargetUtilization = 10\<rparr>\<rparr>]
   = Inr \<lparr>Name = [], RiskIndex = [], MinReplicaPercentageCut = 0, TargetUtilization = 0\<rparr>"
  using findClosestSafePolicy_last_match
    [of "\<lparr>HPAMin = 1, HPAMax = 10, TargetMetricValue = 25\<rparr>"
     "[\<lparr>ObjectName = ''p10'', Spec = \<lparr>SpecRiskIndex = ''1'', SpecMinReplicaPercentageCut = 100,
          SpecTargetUtilization = 10\<rparr>\<rparr>,
      \<lparr>ObjectName = ''p20'', Spec = \<lparr>SpecRiskIndex = ''2'', SpecMinReplicaPercentageCut = 100,
          SpecTargetUtilization = 20\<rparr>\<rparr>,
      \<lparr>ObjectName = ''p30'', Spec = \<lparr>SpecRiskIndex = ''3'', SpecMinReplicaPercentageCut = 100,
          SpecTargetUtilization = 30\<rparr>\<rparr>,
      \<lparr>ObjectName = ''q15'', Spec = \<lparr>SpecRiskIndex = ''4'', SpecMinReplicaPercentageCut = 80,
          SpecTargetUtilization = 15\<rparr>\<rparr>]"]
    findClosestSafePolicy_last_match
    [of "\<lparr>HPAMin = 1, HPAMax = 10, TargetMetricValue = 5\<rparr>"
     "[\<lparr>ObjectName = ''p10'', Spec = \<lparr>SpecRiskIndex = ''1'', SpecMinReplicaPercentageCut = 100,
          SpecTargetUtilization = 10\<rparr>\<rparr>]"]
  by (simp add: PolicyFromCR_def)

section \<open>The workflow: merging the policies of the iterators\<close>

lemma pickSafestPolicy_assoc:
  "pickSafestPolicy a (pickSafestPolicy b c) = pickSafestPolicy (pickSafestPolicy a b) c"
  by (auto simp: pickSafestPolicy_def split: option.splits)

lemma pickSafestPolicy_Some:
  "pickSafestPolicy acc (Some p) = Some r \<Longrightarrow>
     (r = p \<or> acc = Some r) \<and> RiskIndex r \<le> RiskIndex p
     \<and> (\<forall>q. acc = Some q \<longrightarrow> RiskIndex r \<le> RiskIndex q)"
  by (auto simp: pickSafestPolicy_def split: option.splits if_splits)

lemma pickSafestPolicy_not_None: "pickSafestPolicy acc (Some p) \<noteq> None"
  by (auto simp: pickSafestPolicy_def split: option.splits)

lemma runPolicyIterators_least:
  assumes "\<forall>i e. (i, Inl e) \<notin> set xs"
  shows "\<exists>r. runPolicyIterators acc xs = Inr r
           \<and> (case r of None \<Rightarrow> candidates acc xs = {}
               | Some p \<Rightarrow> p \<in> candidates acc xs
                    \<and> (\<forall>q \<in> candidates acc xs. RiskIndex p \<le> RiskIndex q))"
  using assms
proof (induction xs arbitrary: acc)
  case Nil
  then show ?case by (auto simp: candidates_def split: option.splits)
next
  case (Cons x xs)
  obtain i a where x: "x = (i, a)" by (cases x)
  from Cons.prems have noerr: "\<forall>i e. (i, Inl e) \<notin> set xs" by auto
  show ?case
  proof (cases a)
    case (Inl e)
    with Cons.prems x show ?thesis by auto
  next
    case (Inr po)
    show ?thesis
    proof (cases po)
      case None
      have cs: "candidates acc (x # xs) = candidates acc xs"
        using x Inr None by (auto simp: candidates_def)
      have "runPolicyIterators acc (x # xs) = runPolicyIterators acc xs"
        using x Inr None by simp
      with Cons.IH [OF noerr, of acc] show ?thesis unfolding cs by simp
    next
      case (Some p)
      obtain s where s: "pickSafestPolicy acc (Some p) = Some s"
        using pickSafestPolicy_not_None [of acc p] by (cases "pickSafestPolicy acc (Some p)") auto
      note sp = pickSafestPolicy_Some [OF s]
      from Cons.IH [OF noerr, of "Some s"] obtain r where
        r: "runPolicyIterators (Some s) xs = Inr r"
        and rc: "case r of None \<Rightarrow> candidates (Some s) xs = {}
               | Some p \<Rightarrow> p \<in> candidates (Some s) xs
                    \<and> (\<forall>q \<in> candidates (Some s) xs. RiskIndex p \<le> RiskIndex q)"
        by blast
      have run: "runPolicyIterators acc (x # xs) = Inr r"
        using x Inr Some s r by simp
      have sub: "candidates (Some s) xs \<subseteq> candidates acc (x # xs)"
        using sp x Inr Some by (auto simp: candidates_def)
      have s_in: "s \<in> candidates (Some s) xs" by (simp add: candidates_def)
      have cover: "\<forall>q \<in> candidates acc (x # xs). q \<in> candidates (Some s) xs \<or> RiskIndex s \<le> RiskIndex q"
        using sp x Inr Some by (auto simp: candidates_def)
      show ?thesis
      proof (cases r)
        case None
        with rc s_in show ?thesis by auto
      next
        case (Some t)
        with rc have t_in: "t \<in> candidates (Some s) xs"
          and t_min: "\<forall>q \<in> candidates (Some s) xs. RiskIndex t \<le> RiskIndex q" by auto
        from t_min s_in have ts: "RiskIndex t \<le> RiskIndex s" by blast
        have "\<forall>q \<in> candidates acc (x # xs). RiskIndex t \<le> RiskIndex q"
        proof
          fix q assume "q \<in> candidates acc (x # xs)"
          with cover have "q \<in> candidates (Some s) xs \<or> RiskIndex s \<le> RiskIndex q" by blast
          then show "RiskIndex t \<le> RiskIndex q"
            using t_min ts by (auto intro: order_trans)
        qed
        with run Some t_in sub show ?thesis by auto
      qed
    qed
  qed
qed

lemma runPolicyIterators_order_free:
  assumes same: "set xs = set ys"
    and noerr: "\<forall>i e. (i, Inl e) \<notin> set xs"
    and inj: "\<forall>i p j q. (i, Inr (Some p)) \<in> set xs \<and> (j, Inr (Some q)) \<in> set xs
                \<and> RiskIndex p = RiskIndex q \<longrightarrow> p = q"
  shows "runPolicyIterators None xs = runPolicyIterators None ys"
proof -
  from noerr same have noerr': "\<forall>i e. (i, Inl e) \<notin> set ys" by simp
  have cs: "candidates None xs = candidates None ys"
    using same by (simp add: candidates_def)
  from runPolicyIterators_least [OF noerr, of None] obtain r where
    r: "runPolicyIterators None xs = Inr r"
    and rc: "case r of None \<Rightarrow> candidates None xs = {}
               | Some p \<Rightarrow> p \<in> candidates None xs
                    \<and> (\<forall>q \<in> candidates None xs. RiskIndex p \<le> RiskIndex q)" by blast
  from runPolicyIterators_least [OF noerr', of None] obtain r' where
    r': "runPolicyIterators None ys = Inr r'"
    and rc': "case r' of None \<Rightarrow> candidates None xs = {}
               | Some p \<Rightarrow> p \<in> candidates None xs
                    \<and> (\<forall>q \<in> candidates None xs. RiskIndex p \<le> RiskIndex q)"
    unfolding cs by blast
  have "r = r'"
  proof (cases r)
    case None
    with rc rc' show ?thesis by (cases r') auto
  next
    case (Some p)
    with rc rc' obtain p' where p': "r' = Some p'" by (cases r') auto
    from rc Some have pin: "p \<in> candidates None xs"
      and pmin: "\<forall>q \<in> candidates None xs. RiskIndex p \<le> RiskIndex q" by auto
    from rc' p' have pin': "p' \<in> candidates None xs"
      and pmin': "\<forall>q \<in> candidates None xs. RiskIndex p' \<le> RiskIndex q" by auto
    from pmin pin' pmin' pin have "RiskIndex p = RiskIndex p'" by (auto intro: antisym)
    moreover from pin pin' obtain i j where
      "(i, Inr (Some p)) \<in> set xs" "(j, Inr (Some p')) \<in> set xs"
      by (auto simp: candidates_def)
    ultimately have "p = p'" using inj by blast
    with Some p' show ?thesis by simp
  qed
  with r r' show ?thesis by simp
qed

text \<open>
  Claim C6, as stated, fails: of two different policies with the same risk index
  \<^verbatim>\<open>pickSafestPolicy\<close> returns its first argument, whichever that is.
\<close>

theorem pickSafestPolicy_not_commutative:
  "pickSafestPolicy
     (Some \<lparr>Name = ''a'', RiskIndex = ''10'', MinReplicaPercentageCut = 100, TargetUtilization = 10\<rparr>)
     (Some \<lparr>Name = ''b'', RiskIndex = ''10'', MinReplicaPercentageCut = 80, TargetUtilization = 20\<rparr>)
   \<noteq> pickSafestPolicy
     (Some \<lparr>Name = ''b'', RiskIndex = ''10'', MinReplicaPercentageCut = 80, TargetUtilization = 20\<rparr>)
     (Some \<lparr>Name = ''a'', RiskIndex = ''10'', MinReplicaPercentageCut = 100, TargetUtilization = 10\<rparr>)"
  by (simp add: pickSafestPolicy_def)

text \<open>
  Claim C6, amended. \<^verbatim>\<open>pickSafestPolicy\<close> is associative and has nil as a two-sided
  identity; it is commutative on every pair of policies that are equal whenever their
  risk indices are equal. Consequently, when no iterator fails and policies with equal
  risk index are equal, the merged \<^verbatim>\<open>nextPolicy\<close> of \<^verbatim>\<open>Execute\<close> is the same for every
  order in which the same iterator answers are visited.
\<close>

theorem pickSafestPolicy_commutes_up_to_ties:
  "pickSafestPolicy a (pickSafestPolicy b c) = pickSafestPolicy (pickSafestPolicy a b) c
   \<and> pickSafestPolicy None a = a \<and> pickSafestPolicy a None = a
   \<and> ((\<forall>p q. a = Some p \<and> b = Some q \<and> RiskIndex p = RiskIndex q \<longrightarrow> p = q)
        \<longrightarrow> pickSafestPolicy a b = pickSafestPolicy b a)
   \<and> (set xs = set ys \<and> (\<forall>i e. (i, Inl e) \<notin> set xs)
        \<and> (\<forall>i p j q. (i, Inr (Some p)) \<in> set xs \<and> (j, Inr (Some q)) \<in> set xs
                \<and> RiskIndex p = RiskIndex q \<longrightarrow> p = q)
        \<longrightarrow> runPolicyIterators None xs = runPolicyIterators None ys)"
proof (intro conjI impI)
  show "pickSafestPolicy a (pickSafestPolicy b c) = pickSafestPolicy (pickSafestPolicy a b) c"
    by (rule pickSafestPolicy_assoc)
  show "pickSafestPolicy None a = a" by (simp add: pickSafestPolicy_def split: option.splits)
  show "pickSafestPolicy a None = a" by (simp add: pickSafestPolicy_def split: option.splits)
next
  assume "\<forall>p q. a = Some p \<and> b = Some q \<and> RiskIndex p = RiskIndex q \<longrightarrow> p = q"
  then show "pickSafestPolicy a b = pickSafestPolicy b a"
    by (auto simp: pickSafestPolicy_def split: option.splits)
next
  assume "set xs = set ys \<and> (\<forall>i e. (i, Inl e) \<notin> set xs)
        \<and> (\<forall>i p j q. (i, Inr (Some p)) \<in> set xs \<and> (j, Inr (Some q)) \<in> set xs
                \<and> RiskIndex p = RiskIndex q \<longrightarrow> p = q)"
  then show "runPolicyIterators None xs = runPolicyIterators None ys"
    using runPolicyIterators_order_free [of xs ys] by blast
qed

theorem pickSafestPolicy_commutes_up_to_ties_witness:
  "pickSafestPolicy
     (Some \<lparr>Name = ''a'', RiskIndex = ''10'', MinReplicaPercentageCut = 100, TargetUtilization = 10\<rparr>)
     (Some \<lparr>Name = ''b'', RiskIndex = ''20'', MinReplicaPercentageCut = 80, TargetUtilization = 20\<rparr>)
   = pickSafestPolicy
     (Some \<lparr>Name = ''b'', RiskIndex = ''20'', MinReplicaPercentageCut = 80, TargetUtilization = 20\<rparr>)
     (Some \<lparr>Name = ''a'', RiskIndex = ''10'', MinReplicaPercentageCut = 100, TargetUtilization = 10\<rparr>)
   \<and> runPolicyIterators None
       [(''aging'', Inr (Some \<lparr>Name = ''b'', RiskIndex = ''20'', MinReplicaPercentageCut = 80,
                                TargetUtilization = 20\<rparr>)),
        (''default'', Inr (Some \<lparr>Name = ''a'', RiskIndex = ''10'', MinReplicaPercentageCut = 100,
                                  TargetUtilization = 10\<rparr>))]
     = runPolicyIterators None
       [(''default'', Inr (Some \<lparr>Name = ''a'', RiskIndex = ''10'', MinReplicaPercentageCut = 100,
                                  TargetUtilization = 10\<rparr>)),
        (''aging'', Inr (Some \<lparr>Name = ''b'', RiskIndex = ''20'', MinReplicaPercentageCut = 80,
                                TargetUtilization = 20\<rparr>))]"
  using pickSafestPolicy_commutes_up_to_ties
    [of "Some \<lparr>Name = ''a'', RiskIndex = ''10'', MinReplicaPercentageCut = 100,
                TargetUtilization = 10\<rparr>"
        "Some \<lparr>Name = ''b'', RiskIndex = ''20'', MinReplicaPercentageCut = 80,
                TargetUtilization = 20\<rparr>"
        None
        "[(''aging'', Inr (Some \<lparr>Name = ''b'', RiskIndex = ''20'', MinReplicaPercentageCut = 80,
                                TargetUtilization = 20\<rparr>)),
          (''default'', Inr (Some \<lparr>Name = ''a'', RiskIndex = ''10'', MinReplicaPercentageCut = 100,
                                  TargetUtilization = 10\<rparr>))]"
        "[(''default'', Inr (Some \<lparr>Name = ''a'', RiskIndex = ''10'', MinReplicaPercentageCut = 100,
                                  TargetUtilization = 10\<rparr>)),
          (''aging'', Inr (Some \<lparr>Name = ''b'', RiskIndex = ''20'', MinReplicaPercentageCut = 80,
                                TargetUtilization = 20\<rparr>))]"]
  by auto

section \<open>The workflow: errors of the collaborators\<close>





end
